theory Spec2Isabelle
  imports Main "HOL-Library.AList" "HOL-Library.Char_ord" "HOL-Library.List_Lexorder"
    "HOL-Library.Product_Lexorder" "HOL-Library.Multiset"
begin

section \<open>Python values and the operations the scripts use on them\<close>

text \<open>
  The example scripts handle tools as \<^verbatim>\<open>Dict[str, Any]\<close>: values read from a JSON or
  YAML document. A value is one of the JSON shapes; a dict is an association list in
  insertion order (Python dicts keep it), looked up by key. Floating-point numbers do
  not occur in any operation modelled here and are left out.
\<close>

datatype json =
    JNull
  | JBool bool
  | JInt int
  | JStr string
  | JList "json list"
  | JDict "(string \<times> json) list"

datatype py_error = AttributeError | KeyError | IndexError | TypeError | FileNotFoundError | ParseError

text \<open>\<^verbatim>\<open>d.get(key, default)\<close>: only a dict has the method.\<close>

fun dict_get :: "json \<Rightarrow> string \<Rightarrow> json \<Rightarrow> py_error + json" where
  "dict_get (JDict kvs) k d = (case map_of kvs k of None \<Rightarrow> Inr d | Some v \<Rightarrow> Inr v)"
| "dict_get _ k d = Inl AttributeError"

text \<open>\<^verbatim>\<open>d[key]\<close> on a dict with string keys.\<close>

fun dict_item :: "(string \<times> json) list \<Rightarrow> string \<Rightarrow> py_error + json" where
  "dict_item kvs k = (case map_of kvs k of None \<Rightarrow> Inl KeyError | Some v \<Rightarrow> Inr v)"

text \<open>\<^verbatim>\<open>s.split(c)\<close> for a one-character separator: the pieces between occurrences.\<close>

fun split_on :: "char \<Rightarrow> string \<Rightarrow> string list" where
  "split_on c [] = [[]]"
| "split_on c (x # xs) =
     (if x = c then [] # split_on c xs
      else (case split_on c xs of
              [] \<Rightarrow> [[x]]
            | y # ys \<Rightarrow> (x # y) # ys))"

text \<open>\<^verbatim>\<open>v.split('\n')\<close>: only a string has the method.\<close>

definition newline :: char where
  "newline = CHR 0x0A"

fun str_split_lines :: "json \<Rightarrow> py_error + string list" where
  "str_split_lines (JStr s) = Inr (split_on newline s)"
| "str_split_lines _ = Inl AttributeError"

text \<open>\<^verbatim>\<open>xs[0]\<close> on a list.\<close>

fun item0 :: "'a list \<Rightarrow> py_error + 'a" where
  "item0 [] = Inl IndexError"
| "item0 (x # xs) = Inr x"

section \<open>The summary line of a tool\<close>

text \<open>
  \<^verbatim>\<open>tool.get('description', '').split('\n')[0]\<close>, the expression that
  \<^verbatim>\<open>run_server.main\<close>, \<^verbatim>\<open>client_example.main\<close> and
  \<^verbatim>\<open>list_tools_from_spec\<close> print after the tool's name.
\<close>

definition description_summary :: "json \<Rightarrow> py_error + string" where
  "description_summary tool =
     (case dict_get tool ''description'' (JStr '''') of
        Inl e \<Rightarrow> Inl e
      | Inr d \<Rightarrow>
          (case str_split_lines d of
             Inl e \<Rightarrow> Inl e
           | Inr ls \<Rightarrow> item0 ls))"

lemma split_on_hd: "\<exists>ys. split_on c s = takeWhile (\<lambda>x. x \<noteq> c) s # ys"
  by (induction s) auto

lemma item0_split_on: "item0 (split_on c s) = Inr (takeWhile (\<lambda>x. x \<noteq> c) s)"
proof -
  obtain ys where "split_on c s = takeWhile (\<lambda>x. x \<noteq> c) s # ys"
    using split_on_hd by blast
  then show ?thesis by simp
qed

lemma description_summary_str:
  "map_of kvs ''description'' = Some (JStr s) \<Longrightarrow>
   description_summary (JDict kvs) = Inr (takeWhile (\<lambda>x. x \<noteq> newline) s)"
  by (simp add: description_summary_def item0_split_on)

lemma description_summary_absent:
  "map_of kvs ''description'' = None \<Longrightarrow> description_summary (JDict kvs) = Inr ''''"
  by (simp add: description_summary_def)

text \<open>
  C9. The summary shown for a tool is the first line of its description: the text before
  the first newline when the description is a string, and the empty string when the
  tool has no description key. Two descriptions that agree up to their first newline
  give the same summary, whatever follows it.
\<close>

theorem description_summary_first_line:
  "(map_of kvs ''description'' = Some (JStr s) \<longrightarrow>
      description_summary (JDict kvs) = Inr (takeWhile (\<lambda>x. x \<noteq> newline) s))
   \<and> (map_of kvs ''description'' = None \<longrightarrow> description_summary (JDict kvs) = Inr [])
   \<and> (newline \<notin> set l
        \<and> map_of kvs1 ''description'' = Some (JStr (l @ newline # r1))
        \<and> map_of kvs2 ''description'' = Some (JStr (l @ newline # r2)) \<longrightarrow>
      description_summary (JDict kvs1) = Inr l
      \<and> description_summary (JDict kvs2) = Inr l)"
proof (intro conjI impI)
  assume "map_of kvs ''description'' = Some (JStr s)"
  then show "description_summary (JDict kvs) = Inr (takeWhile (\<lambda>x. x \<noteq> newline) s)"
    by (rule description_summary_str)
next
  assume "map_of kvs ''description'' = None"
  then show "description_summary (JDict kvs) = Inr []"
    by (rule description_summary_absent)
next
  assume a: "newline \<notin> set l
        \<and> map_of kvs1 ''description'' = Some (JStr (l @ newline # r1))
        \<and> map_of kvs2 ''description'' = Some (JStr (l @ newline # r2))"
  from a have "\<forall>x\<in>set l. x \<noteq> newline" by blast
  then have tw: "\<And>r. takeWhile (\<lambda>x. x \<noteq> newline) (l @ newline # r) = l"
    by (induction l) simp_all
  from a show "description_summary (JDict kvs1) = Inr l"
    using description_summary_str [of kvs1 "l @ newline # r1"] tw by simp
  from a show "description_summary (JDict kvs2) = Inr l"
    using description_summary_str [of kvs2 "l @ newline # r2"] tw by simp
qed

theorem description_summary_first_line_witness:
  "description_summary
     (JDict [(''name'', JStr ''getUsers''),
             (''description'', JStr (''List users'' @ newline # ''Paged.''))])
     = Inr ''List users''
   \<and> description_summary
     (JDict [(''description'', JStr (''List users'' @ newline # ''Other text'')),
             (''name'', JStr ''listUsers'')])
     = Inr ''List users''
   \<and> description_summary (JDict [(''name'', JStr ''getUsers'')]) = Inr []
   \<and> description_summary (JDict [(''description'', JStr ''one line'')]) = Inr ''one line''"
  using description_summary_first_line
    [of "[(''name'', JStr ''getUsers'')]" "''unused''" "''List users''"
        "[(''name'', JStr ''getUsers''),
          (''description'', JStr (''List users'' @ newline # ''Paged.''))]"
        "''Paged.''"
        "[(''description'', JStr (''List users'' @ newline # ''Other text'')),
          (''name'', JStr ''listUsers'')]"
        "''Other text''"]
    description_summary_first_line
    [of "[(''description'', JStr ''one line'')]" "''one line''" "[]" "[]" "[]" "[]" "[]"]
  by (simp add: newline_def)

section \<open>The example parameters printed by \<^verbatim>\<open>run_mcp_server\<close>\<close>

text \<open>
  \<^verbatim>\<open>v[0]\<close>: the first element of a list, the first character of a string; an empty one
  raises IndexError; a dict (whose keys are strings) has no key 0; nothing else can be
  subscripted.
\<close>

fun subscript0 :: "json \<Rightarrow> py_error + json" where
  "subscript0 (JList []) = Inl IndexError"
| "subscript0 (JList (x # xs)) = Inr x"
| "subscript0 (JStr []) = Inl IndexError"
| "subscript0 (JStr (c # cs)) = Inr (JStr [c])"
| "subscript0 (JDict kvs) = Inl KeyError"
| "subscript0 _ = Inl TypeError"

text \<open>
  The body of the loop for one \<^verbatim>\<open>(param_name, param_schema)\<close>: the value stored under
  the name, \<open>None\<close> when no branch of the \<^verbatim>\<open>if\<close>/\<^verbatim>\<open>elif\<close> chain is taken.
  \<^verbatim>\<open>param_schema.get("type")\<close> defaults to \<^verbatim>\<open>None\<close>.
\<close>

definition sample_value :: "string \<Rightarrow> json \<Rightarrow> py_error + json option" where
  "sample_value param_name param_schema =
     (case dict_get param_schema ''type'' JNull of
        Inl e \<Rightarrow> Inl e
      | Inr t \<Rightarrow>
          if t = JStr ''string'' then
            (case param_schema of
               JDict kvs \<Rightarrow>
                 if map_of kvs ''enum'' \<noteq> None then
                   (case dict_item kvs ''enum'' of
                      Inl e \<Rightarrow> Inl e
                    | Inr ev \<Rightarrow>
                        (case subscript0 ev of Inl e \<Rightarrow> Inl e | Inr v \<Rightarrow> Inr (Some v)))
                 else Inr (Some (JStr (''sample_'' @ param_name)))
             | _ \<Rightarrow> Inl AttributeError)
          else if t = JStr ''integer'' then Inr (Some (JInt 10))
          else if t = JStr ''boolean'' then Inr (Some (JBool True))
          else Inr None)"

text \<open>
  The \<^verbatim>\<open>for\<close> loop over \<^verbatim>\<open>.items()\<close>, with the dict \<^verbatim>\<open>parameters\<close> as accumulator;
  \<^verbatim>\<open>parameters[param_name] = v\<close> replaces the value of a key already there and appends
  a new key otherwise.
\<close>

fun sample_loop ::
  "(string \<times> json) list \<Rightarrow> (string \<times> json) list \<Rightarrow> py_error + (string \<times> json) list" where
  "sample_loop [] parameters = Inr parameters"
| "sample_loop ((param_name, param_schema) # rest) parameters =
     (case sample_value param_name param_schema of
        Inl e \<Rightarrow> Inl e
      | Inr None \<Rightarrow> sample_loop rest parameters
      | Inr (Some v) \<Rightarrow> sample_loop rest (AList.update param_name v parameters))"

text \<open>\<^verbatim>\<open>d.items()\<close>: only a dict has the method.\<close>

fun dict_items :: "json \<Rightarrow> py_error + (string \<times> json) list" where
  "dict_items (JDict kvs) = Inr kvs"
| "dict_items _ = Inl AttributeError"

text \<open>\<^verbatim>\<open>tool.get("parameters", {}).get("properties", {}).items()\<close>\<close>

definition tool_properties :: "json \<Rightarrow> py_error + (string \<times> json) list" where
  "tool_properties tool =
     (case dict_get tool ''parameters'' (JDict []) of
        Inl e \<Rightarrow> Inl e
      | Inr ps \<Rightarrow>
          (case dict_get ps ''properties'' (JDict []) of
             Inl e \<Rightarrow> Inl e
           | Inr props \<Rightarrow> dict_items props))"

text \<open>The dict \<^verbatim>\<open>parameters\<close> after the loop, for \<^verbatim>\<open>tool = server.tools[0]\<close>.\<close>

definition example_parameters :: "json \<Rightarrow> py_error + (string \<times> json) list" where
  "example_parameters tool =
     (case tool_properties tool of
        Inl e \<Rightarrow> Inl e
      | Inr items \<Rightarrow> sample_loop items [])"

text \<open>
  What the claim says the generator assigns to a property, in the claim's words: the
  first element of a non-empty enum for a string, \<^verbatim>\<open>sample_<name>\<close> for other strings,
  10 for an integer, True for a boolean, nothing for any other or missing type.
\<close>

definition claimed_sample :: "string \<Rightarrow> (string \<times> json) list \<Rightarrow> json option" where
  "claimed_sample param_name kvs =
     (if map_of kvs ''type'' = Some (JStr ''string'') then
        (case map_of kvs ''enum'' of
           Some (JList (x # xs)) \<Rightarrow> Some x
         | _ \<Rightarrow> Some (JStr (''sample_'' @ param_name)))
      else if map_of kvs ''type'' = Some (JStr ''integer'') then Some (JInt 10)
      else if map_of kvs ''type'' = Some (JStr ''boolean'') then Some (JBool True)
      else None)"

text \<open>
  A string property either has no \<^verbatim>\<open>enum\<close> key or has one holding a non-empty list.
\<close>

definition enum_usable :: "(string \<times> json) list \<Rightarrow> bool" where
  "enum_usable kvs =
     (map_of kvs ''type'' \<noteq> Some (JStr ''string'')
      \<or> (case map_of kvs ''enum'' of
            None \<Rightarrow> True
          | Some (JList (x # xs)) \<Rightarrow> True
          | Some _ \<Rightarrow> False))"

lemma sample_value_claimed:
  "enum_usable kvs \<Longrightarrow> sample_value n (JDict kvs) = Inr (claimed_sample n kvs)"
  by (auto simp: sample_value_def claimed_sample_def enum_usable_def
           split: option.splits json.splits list.splits)

lemma sample_loop_claimed:
  "distinct (map fst props) \<Longrightarrow> \<forall>(n, kvs) \<in> set props. enum_usable kvs \<Longrightarrow>
   distinct (map fst acc) \<Longrightarrow>
   \<exists>res. sample_loop (map (\<lambda>(n, kvs). (n, JDict kvs)) props) acc = Inr res
      \<and> distinct (map fst res)
      \<and> (\<forall>n. map_of res n =
            (case map_of props n of
               None \<Rightarrow> map_of acc n
             | Some kvs \<Rightarrow>
                 (case claimed_sample n kvs of None \<Rightarrow> map_of acc n | Some v \<Rightarrow> Some v)))"
proof (induction props arbitrary: acc)
  case Nil
  then show ?case by simp
next
  case (Cons p props)
  obtain n kvs where p: "p = (n, kvs)" by (cases p)
  have eu: "enum_usable kvs" using Cons.prems(2) p by simp
  have sv: "sample_value n (JDict kvs) = Inr (claimed_sample n kvs)"
    using eu by (rule sample_value_claimed)
  have d: "distinct (map fst props)" and nin: "n \<notin> fst ` set props"
    using Cons.prems(1) p by simp_all
  have rest: "\<forall>(n, kvs) \<in> set props. enum_usable kvs" using Cons.prems(2) by simp
  have mn: "map_of props n = None" using nin by (simp add: map_of_eq_None_iff)
  show ?case
  proof (cases "claimed_sample n kvs")
    case None
    from Cons.IH [OF d rest Cons.prems(3)] obtain res where
      r: "sample_loop (map (\<lambda>(n, kvs). (n, JDict kvs)) props) acc = Inr res"
         "distinct (map fst res)"
         "\<forall>m. map_of res m =
            (case map_of props m of
               None \<Rightarrow> map_of acc m
             | Some kvs \<Rightarrow>
                 (case claimed_sample m kvs of None \<Rightarrow> map_of acc m | Some v \<Rightarrow> Some v))"
      by blast
    show ?thesis
      using r None sv mn p by (auto split: option.splits)
  next
    case (Some v)
    have da: "distinct (map fst (AList.update n v acc))"
      using Cons.prems(3) by (simp add: AList.distinct_update)
    from Cons.IH [OF d rest da] obtain res where
      r: "sample_loop (map (\<lambda>(n, kvs). (n, JDict kvs)) props) (AList.update n v acc) = Inr res"
         "distinct (map fst res)"
         "\<forall>m. map_of res m =
            (case map_of props m of
               None \<Rightarrow> map_of (AList.update n v acc) m
             | Some kvs \<Rightarrow>
                 (case claimed_sample m kvs of None \<Rightarrow> map_of (AList.update n v acc) m | Some v \<Rightarrow> Some v))"
      by blast
    show ?thesis
      using r Some sv mn p by (auto simp: AList.update_conv' split: option.splits)
  qed
qed

text \<open>
  The claim as first stated gives \<^verbatim>\<open>sample_<name>\<close> to every string property that has no
  non-empty enum. A string property whose enum key holds the empty list is such a
  property, and there the generator raises IndexError: no mapping is produced.
\<close>

theorem example_parameters_empty_enum:
  "example_parameters
     (JDict
       [(''name'', JStr ''findPets''),
        (''parameters'', JDict
          [(''type'', JStr ''object''),
           (''properties'', JDict
             [(''status'', JDict [(''type'', JStr ''string''), (''enum'', JList [])])]),
           (''required'', JList [])])])
     = Inl IndexError
   \<and> claimed_sample ''status'' [(''type'', JStr ''string''), (''enum'', JList [])]
     = Some (JStr ''sample_status'')"
  by (simp add: example_parameters_def tool_properties_def sample_value_def claimed_sample_def)

text \<open>
  C10, as amended. For a tool whose properties are schema objects with distinct names,
  where every property of type string either has no enum key or has one holding a
  non-empty list, the generator returns a mapping whose keys are exactly the properties
  of type string, integer or boolean (a subset of the properties' names), holding the
  first element of the enum for a string with an enum, \<^verbatim>\<open>sample_<name>\<close> for a string
  without one, 10 for an integer and True for a boolean.
\<close>

theorem example_parameters_amended:
  assumes "tool_properties tool = Inr (map (\<lambda>(n, kvs). (n, JDict kvs)) props)"
    and "distinct (map fst props)"
    and "\<forall>(n, kvs) \<in> set props. enum_usable kvs"
  shows "\<exists>params. example_parameters tool = Inr params
     \<and> fst ` set params =
         {n. \<exists>kvs. (n, kvs) \<in> set props
              \<and> map_of kvs ''type'' \<in>
                  {Some (JStr ''string''), Some (JStr ''integer''), Some (JStr ''boolean'')}}
     \<and> fst ` set params \<subseteq> fst ` set props
     \<and> (\<forall>(n, kvs) \<in> set props. map_of params n = claimed_sample n kvs)"
proof -
  have "distinct (map fst ([] :: (string \<times> json) list))" by simp
  from sample_loop_claimed [OF assms(2) assms(3) this] obtain res where
    r: "sample_loop (map (\<lambda>(n, kvs). (n, JDict kvs)) props) [] = Inr res"
    and m0: "\<forall>n. map_of res n =
            (case map_of props n of
               None \<Rightarrow> map_of [] n
             | Some kvs \<Rightarrow>
                 (case claimed_sample n kvs of None \<Rightarrow> map_of [] n | Some v \<Rightarrow> Some v))"
    by blast
  have m: "\<forall>n. map_of res n =
            (case map_of props n of None \<Rightarrow> None | Some kvs \<Rightarrow> claimed_sample n kvs)"
  proof
    fix n
    show "map_of res n =
            (case map_of props n of None \<Rightarrow> None | Some kvs \<Rightarrow> claimed_sample n kvs)"
      using m0 [rule_format, of n] by (simp split: option.splits)
  qed
  have ex: "example_parameters tool = Inr res"
    using assms(1) r by (simp add: example_parameters_def)
  have vals: "\<forall>(n, kvs) \<in> set props. map_of res n = claimed_sample n kvs"
    using m assms(2) by auto
  have dom: "fst ` set res = {n. map_of res n \<noteq> None}"
    by (auto simp: map_of_eq_None_iff)
  have typed: "\<And>n kvs. claimed_sample n kvs \<noteq> None \<longleftrightarrow>
      map_of kvs ''type'' \<in>
        {Some (JStr ''string''), Some (JStr ''integer''), Some (JStr ''boolean'')}"
    by (auto simp: claimed_sample_def split: option.splits json.splits list.splits)
  have keys: "fst ` set res =
         {n. \<exists>kvs. (n, kvs) \<in> set props
              \<and> map_of kvs ''type'' \<in>
                  {Some (JStr ''string''), Some (JStr ''integer''), Some (JStr ''boolean'')}}"
  proof -
    have "map_of res n \<noteq> None \<longleftrightarrow>
          (\<exists>kvs. (n, kvs) \<in> set props \<and> claimed_sample n kvs \<noteq> None)" for n
    proof (cases "map_of props n")
      case None
      then have "\<And>kvs. (n, kvs) \<notin> set props"
        by (metis assms(2) map_of_is_SomeI option.distinct(1))
      then show ?thesis using m None by simp
    next
      case (Some kvs)
      then have mem: "(n, kvs) \<in> set props" by (rule map_of_SomeD)
      have uniq: "\<And>kvs'. (n, kvs') \<in> set props \<Longrightarrow> kvs' = kvs"
        using Some assms(2) by (metis map_of_is_SomeI option.inject)
      have mr: "map_of res n = claimed_sample n kvs"
        using m [rule_format, of n] Some by simp
      show ?thesis
      proof
        assume "map_of res n \<noteq> None"
        then have "claimed_sample n kvs \<noteq> None" using mr by simp
        then show "\<exists>kvs. (n, kvs) \<in> set props \<and> claimed_sample n kvs \<noteq> None"
          using mem by blast
      next
        assume "\<exists>kvs. (n, kvs) \<in> set props \<and> claimed_sample n kvs \<noteq> None"
        then obtain k where "(n, k) \<in> set props" and c: "claimed_sample n k \<noteq> None"
          by blast
        then have "k = kvs" using uniq by blast
        then show "map_of res n \<noteq> None" using c mr by simp
      qed
    qed
    then have "{n. map_of res n \<noteq> None} =
          {n. \<exists>kvs. (n, kvs) \<in> set props \<and> claimed_sample n kvs \<noteq> None}"
      by blast
    then show ?thesis using dom typed by simp
  qed
  have sub: "fst ` set res \<subseteq> fst ` set props"
    unfolding keys by force
  show ?thesis using ex keys sub vals by blast
qed

theorem example_parameters_amended_witness:
  "tool_properties
     (JDict
       [(''name'', JStr ''findPets''),
        (''parameters'', JDict
          [(''type'', JStr ''object''),
           (''properties'', JDict
             [(''status'', JDict [(''type'', JStr ''string''),
                                  (''enum'', JList [JStr ''available'', JStr ''sold''])]),
              (''q'', JDict [(''type'', JStr ''string'')]),
              (''limit'', JDict [(''type'', JStr ''integer'')]),
              (''tags'', JDict [(''type'', JStr ''array'')]),
              (''verbose'', JDict [(''type'', JStr ''boolean'')]),
              (''body'', JDict [(''description'', JStr ''untyped'')])])])])
     = Inr (map (\<lambda>(n, kvs). (n, JDict kvs))
         [(''status'', [(''type'', JStr ''string''),
                        (''enum'', JList [JStr ''available'', JStr ''sold''])]),
          (''q'', [(''type'', JStr ''string'')]),
          (''limit'', [(''type'', JStr ''integer'')]),
          (''tags'', [(''type'', JStr ''array'')]),
          (''verbose'', [(''type'', JStr ''boolean'')]),
          (''body'', [(''description'', JStr ''untyped'')])])
   \<and> example_parameters
     (JDict
       [(''name'', JStr ''findPets''),
        (''parameters'', JDict
          [(''type'', JStr ''object''),
           (''properties'', JDict
             [(''status'', JDict [(''type'', JStr ''string''),
                                  (''enum'', JList [JStr ''available'', JStr ''sold''])]),
              (''q'', JDict [(''type'', JStr ''string'')]),
              (''limit'', JDict [(''type'', JStr ''integer'')]),
              (''tags'', JDict [(''type'', JStr ''array'')]),
              (''verbose'', JDict [(''type'', JStr ''boolean'')]),
              (''body'', JDict [(''description'', JStr ''untyped'')])])])])
     = Inr [(''status'', JStr ''available''), (''q'', JStr ''sample_q''),
            (''limit'', JInt 10), (''verbose'', JBool True)]"
proof -
  let ?tool = "JDict
       [(''name'', JStr ''findPets''),
        (''parameters'', JDict
          [(''type'', JStr ''object''),
           (''properties'', JDict
             [(''status'', JDict [(''type'', JStr ''string''),
                                  (''enum'', JList [JStr ''available'', JStr ''sold''])]),
              (''q'', JDict [(''type'', JStr ''string'')]),
              (''limit'', JDict [(''type'', JStr ''integer'')]),
              (''tags'', JDict [(''type'', JStr ''array'')]),
              (''verbose'', JDict [(''type'', JStr ''boolean'')]),
              (''body'', JDict [(''description'', JStr ''untyped'')])])])]"
  let ?props = "[(''status'', [(''type'', JStr ''string''),
                        (''enum'', JList [JStr ''available'', JStr ''sold''])]),
          (''q'', [(''type'', JStr ''string'')]),
          (''limit'', [(''type'', JStr ''integer'')]),
          (''tags'', [(''type'', JStr ''array'')]),
          (''verbose'', [(''type'', JStr ''boolean'')]),
          (''body'', [(''description'', JStr ''untyped'')])]"
  have h1: "tool_properties ?tool = Inr (map (\<lambda>(n, kvs). (n, JDict kvs)) ?props)"
    by (simp add: tool_properties_def)
  have h2: "distinct (map fst ?props)"
    by simp
  have h3: "\<forall>(n, kvs) \<in> set ?props. enum_usable kvs"
    by (simp add: enum_usable_def)
  from example_parameters_amended [OF h1 h2 h3] obtain params where
    p: "example_parameters ?tool = Inr params"
    and v: "\<forall>(n, kvs) \<in> set ?props. map_of params n = claimed_sample n kvs"
    by blast
  have run: "example_parameters ?tool
     = Inr [(''status'', JStr ''available''), (''q'', JStr ''sample_q''),
            (''limit'', JInt 10), (''verbose'', JBool True)]"
    by (simp add: example_parameters_def tool_properties_def sample_value_def)
  show ?thesis using h1 p run by simp
qed

section \<open>Activation of authentication in \<^verbatim>\<open>run_mcp_server\<close>\<close>

text \<open>
  \<^verbatim>\<open>os.environ\<close> maps the names of the variables that are set to their values;
  \<^verbatim>\<open>os.environ.get(name)\<close> is \<^verbatim>\<open>None\<close> for a variable that is not set.
\<close>

type_synonym environ = "string \<Rightarrow> string option"

text \<open>The dict \<^verbatim>\<open>auth_config\<close>, with its three keys in the order they are written.\<close>

record auth_config =
  client_id :: "string option"
  client_secret :: "string option"
  token_url :: "string option"

definition load_auth_config :: "environ \<Rightarrow> auth_config" where
  "load_auth_config env =
     \<lparr>client_id = env ''API_CLIENT_ID'',
      client_secret = env ''API_CLIENT_SECRET'',
      token_url = env ''API_TOKEN_URL''\<rparr>"

definition auth_config_values :: "auth_config \<Rightarrow> string option list" where
  "auth_config_values c = [client_id c, client_secret c, token_url c]"

text \<open>Python's truth value of \<^verbatim>\<open>None\<close> or a string: a non-empty string is true.\<close>

fun truthy :: "string option \<Rightarrow> bool" where
  "truthy None = False"
| "truthy (Some s) = (s \<noteq> [])"

text \<open>
  Modelled from the spec: the class \<^verbatim>\<open>OAuthHandler\<close> of \<^verbatim>\<open>openapi2mcp.auth\<close> is not among
  the sources. An instance is built from the configuration and, like any object of a
  class that defines no truth value of its own, is true in a condition; \<^verbatim>\<open>None\<close> is false.
\<close>

datatype oauth_handler = OAuthHandler auth_config

fun handler_truthy :: "oauth_handler option \<Rightarrow> bool" where
  "handler_truthy None = False"
| "handler_truthy (Some h) = True"

text \<open>
  \<^verbatim>\<open>auth_handler\<close> after the \<^verbatim>\<open>if all(auth_config.values())\<close>.
\<close>

definition make_auth_handler :: "auth_config \<Rightarrow> oauth_handler option" where
  "make_auth_handler c =
     (if list_all truthy (auth_config_values c) then Some (OAuthHandler c) else None)"

text \<open>
  The arguments of \<^verbatim>\<open>MCPServer(spec_files=[spec_file], auth_config=auth_config if auth_handler else None)\<close>.
\<close>

record server_arguments =
  spec_files :: "string list"
  server_auth_config :: "auth_config option"

definition run_mcp_server_arguments :: "environ \<Rightarrow> string \<Rightarrow> server_arguments" where
  "run_mcp_server_arguments env spec_file =
     (let c = load_auth_config env;
          auth_handler = make_auth_handler c
      in \<lparr>spec_files = [spec_file],
          server_auth_config = (if handler_truthy auth_handler then Some c else None)\<rparr>)"

text \<open>A variable is present and non-empty, in the claim's words.\<close>

definition present_nonempty :: "environ \<Rightarrow> string \<Rightarrow> bool" where
  "present_nonempty env name = (case env name of None \<Rightarrow> False | Some v \<Rightarrow> v \<noteq> [])"

definition auth_complete :: "environ \<Rightarrow> bool" where
  "auth_complete env =
     (present_nonempty env ''API_CLIENT_ID''
      \<and> present_nonempty env ''API_CLIENT_SECRET''
      \<and> present_nonempty env ''API_TOKEN_URL'')"

lemma truthy_present: "truthy (env name) = present_nonempty env name"
  by (cases "env name") (simp_all add: present_nonempty_def)

lemma make_auth_handler_complete:
  "make_auth_handler (load_auth_config env) =
     (if auth_complete env then Some (OAuthHandler (load_auth_config env)) else None)"
  by (simp add: make_auth_handler_def auth_config_values_def load_auth_config_def
        auth_complete_def truthy_present)

text \<open>
  C6. An OAuth handler is created, and the configuration is passed to the server, exactly
  when the three variables are all present and non-empty; otherwise there is no handler
  and the server is built with no auth configuration.
\<close>

theorem auth_all_or_nothing:
  "(make_auth_handler (load_auth_config env) \<noteq> None) = auth_complete env
   \<and> (server_auth_config (run_mcp_server_arguments env spec_file) \<noteq> None) = auth_complete env
   \<and> (if auth_complete env
       then make_auth_handler (load_auth_config env) = Some (OAuthHandler (load_auth_config env))
            \<and> server_auth_config (run_mcp_server_arguments env spec_file)
                = Some (load_auth_config env)
       else make_auth_handler (load_auth_config env) = None
            \<and> server_auth_config (run_mcp_server_arguments env spec_file) = None)
   \<and> spec_files (run_mcp_server_arguments env spec_file) = [spec_file]"
  by (simp add: make_auth_handler_complete run_mcp_server_arguments_def Let_def)

theorem auth_all_or_nothing_witness:
  "server_auth_config
     (run_mcp_server_arguments
        [''API_CLIENT_ID'' \<mapsto> ''id'', ''API_CLIENT_SECRET'' \<mapsto> ''s3cret'',
         ''API_TOKEN_URL'' \<mapsto> ''https://auth.example/token'']
        ''api.yaml'')
     = Some \<lparr>client_id = Some ''id'', client_secret = Some ''s3cret'',
              token_url = Some ''https://auth.example/token''\<rparr>
   \<and> server_auth_config
     (run_mcp_server_arguments
        [''API_CLIENT_ID'' \<mapsto> ''id'', ''API_CLIENT_SECRET'' \<mapsto> [],
         ''API_TOKEN_URL'' \<mapsto> ''https://auth.example/token'']
        ''api.yaml'')
     = None
   \<and> server_auth_config
     (run_mcp_server_arguments
        [''API_CLIENT_ID'' \<mapsto> ''id'', ''API_TOKEN_URL'' \<mapsto> ''https://auth.example/token'']
        ''api.yaml'')
     = None"
  using auth_all_or_nothing
    [of "[''API_CLIENT_ID'' \<mapsto> ''id'', ''API_CLIENT_SECRET'' \<mapsto> ''s3cret'',
          ''API_TOKEN_URL'' \<mapsto> ''https://auth.example/token'']" "''api.yaml''"]
    auth_all_or_nothing
    [of "[''API_CLIENT_ID'' \<mapsto> ''id'', ''API_CLIENT_SECRET'' \<mapsto> [],
          ''API_TOKEN_URL'' \<mapsto> ''https://auth.example/token'']" "''api.yaml''"]
    auth_all_or_nothing
    [of "[''API_CLIENT_ID'' \<mapsto> ''id'',
          ''API_TOKEN_URL'' \<mapsto> ''https://auth.example/token'']" "''api.yaml''"]
  by (simp add: auth_complete_def present_nonempty_def load_auth_config_def)

section \<open>Loading a specification file\<close>

text \<open>\<^verbatim>\<open>s.endswith(suffix)\<close>\<close>

definition endswith :: "string \<Rightarrow> string \<Rightarrow> bool" where
  "endswith s suffix =
     (length suffix \<le> length s \<and> drop (length s - length suffix) s = suffix)"

text \<open>\<^verbatim>\<open>spec_file.endswith(('.yaml', '.yml'))\<close>: one of the suffixes of the tuple.\<close>

definition is_yaml_name :: "string \<Rightarrow> bool" where
  "is_yaml_name spec_file = (endswith spec_file ''.yaml'' \<or> endswith spec_file ''.yml'')"

text \<open>\<^verbatim>\<open>v[key]\<close> for a string key: only a dict can be subscripted by one.\<close>

fun subscript_key :: "json \<Rightarrow> string \<Rightarrow> py_error + json" where
  "subscript_key (JDict kvs) k = dict_item kvs k"
| "subscript_key _ k = Inl TypeError"

text \<open>
  The line printed for one tool, \<^verbatim>\<open>f"{i}. {tool['name']} - {...}"\<close>: the name and the
  summary it shows, the name looked up first.
\<close>

definition tool_line :: "json \<Rightarrow> py_error + (json \<times> string)" where
  "tool_line tool =
     (case subscript_key tool ''name'' of
        Inl e \<Rightarrow> Inl e
      | Inr n \<Rightarrow>
          (case description_summary tool of
             Inl e \<Rightarrow> Inl e
           | Inr s \<Rightarrow> Inr (n, s)))"

text \<open>The \<^verbatim>\<open>for\<close> loop that prints the tools: the lines, or the first error.\<close>

fun print_tools :: "json list \<Rightarrow> py_error + (json \<times> string) list" where
  "print_tools [] = Inr []"
| "print_tools (tool # tools) =
     (case tool_line tool of
        Inl e \<Rightarrow> Inl e
      | Inr l \<Rightarrow>
          (case print_tools tools of
             Inl e \<Rightarrow> Inl e
           | Inr ls \<Rightarrow> Inr (l # ls)))"

text \<open>
  What \<^verbatim>\<open>list_tools_from_spec\<close> does with the parsed structure \<^verbatim>\<open>spec\<close>:
  \<^verbatim>\<open>OpenAPIParser(spec).extract_tools()\<close>, the printing, and the tools returned. The
  parser class is not among the sources: \<open>extract_tools\<close> is a parameter.
\<close>

definition tools_of_spec ::
  "('doc \<Rightarrow> py_error + json list) \<Rightarrow> 'doc \<Rightarrow> py_error + json list" where
  "tools_of_spec extract_tools spec =
     (case extract_tools spec of
        Inl e \<Rightarrow> Inl e
      | Inr tools \<Rightarrow>
          (case print_tools tools of
             Inl e \<Rightarrow> Inl e
           | Inr ls \<Rightarrow> Inr tools))"

text \<open>
  \<^verbatim>\<open>list_tools_from_spec(spec_file)\<close>. The file system maps a path to the content of the
  file there (\<^verbatim>\<open>open\<close> raises for a path with no file); \<^verbatim>\<open>yaml.safe_load\<close> and
  \<^verbatim>\<open>json.load\<close> are the libraries' parsers, taken as parameters.
\<close>

definition list_tools_from_spec ::
  "(string \<Rightarrow> string option) \<Rightarrow> (string \<Rightarrow> py_error + 'doc) \<Rightarrow> (string \<Rightarrow> py_error + 'doc) \<Rightarrow>
   ('doc \<Rightarrow> py_error + json list) \<Rightarrow> string \<Rightarrow> py_error + json list" where
  "list_tools_from_spec files yaml_safe_load json_load extract_tools spec_file =
     (if is_yaml_name spec_file then
        (case files spec_file of
           None \<Rightarrow> Inl FileNotFoundError
         | Some content \<Rightarrow>
             (case yaml_safe_load content of
                Inl e \<Rightarrow> Inl e
              | Inr spec \<Rightarrow> tools_of_spec extract_tools spec))
      else
        (case files spec_file of
           None \<Rightarrow> Inl FileNotFoundError
         | Some content \<Rightarrow>
             (case json_load content of
                Inl e \<Rightarrow> Inl e
              | Inr spec \<Rightarrow> tools_of_spec extract_tools spec)))"

text \<open>
  A tool the printing loop accepts: a dict with a \<^verbatim>\<open>name\<close> key whose \<^verbatim>\<open>description\<close>, when
  there is one, is a string.
\<close>

fun printable :: "json \<Rightarrow> bool" where
  "printable (JDict kvs) =
     (map_of kvs ''name'' \<noteq> None
      \<and> (case map_of kvs ''description'' of
            None \<Rightarrow> True
          | Some (JStr s) \<Rightarrow> True
          | Some _ \<Rightarrow> False))"
| "printable _ = False"

lemma endswith_iff: "endswith s suffix \<longleftrightarrow> (\<exists>p. s = p @ suffix)"
proof
  assume "endswith s suffix"
  then have "s = take (length s - length suffix) s @ suffix"
    by (metis append_take_drop_id endswith_def)
  then show "\<exists>p. s = p @ suffix" ..
next
  assume "\<exists>p. s = p @ suffix"
  then show "endswith s suffix"
    by (auto simp: endswith_def)
qed

lemma tool_line_printable: "printable tool \<Longrightarrow> \<exists>l. tool_line tool = Inr l"
proof (cases tool)
  case (JDict kvs)
  assume p: "printable tool"
  from p JDict obtain n where n: "map_of kvs ''name'' = Some n" by auto
  show ?thesis
  proof (cases "map_of kvs ''description''")
    case None
    then show ?thesis using JDict n
      by (simp add: tool_line_def description_summary_absent)
  next
    case (Some d)
    with p JDict obtain s where "d = JStr s" by (cases d) auto
    with Some show ?thesis using JDict n
      by (simp add: tool_line_def description_summary_str)
  qed
qed auto

lemma print_tools_printable: "list_all printable tools \<Longrightarrow> \<exists>ls. print_tools tools = Inr ls"
proof (induction tools)
  case Nil
  then show ?case by simp
next
  case (Cons tool tools)
  then obtain l ls where "tool_line tool = Inr l" "print_tools tools = Inr ls"
    using tool_line_printable by fastforce
  then show ?case by simp
qed

lemma tools_of_spec_returns:
  "extract_tools spec = Inr tools \<Longrightarrow> list_all printable tools \<Longrightarrow>
   tools_of_spec extract_tools spec = Inr tools"
  using print_tools_printable [of tools] by (auto simp: tools_of_spec_def)

lemma tools_of_spec_error:
  "extract_tools spec = Inl e \<Longrightarrow> tools_of_spec extract_tools spec = Inl e"
  by (simp add: tools_of_spec_def)

lemma tools_of_spec_extracted:
  "tools_of_spec extract_tools spec = Inr result \<Longrightarrow> extract_tools spec = Inr result"
  by (auto simp: tools_of_spec_def split: sum.splits)

lemma list_tools_from_spec_extracted:
  assumes "list_tools_from_spec files yaml_safe_load json_load extract_tools spec_file = Inr result"
  shows "\<exists>content spec. files spec_file = Some content
           \<and> (if is_yaml_name spec_file then yaml_safe_load content else json_load content)
               = Inr spec
           \<and> extract_tools spec = Inr result"
  using assms tools_of_spec_extracted [of extract_tools _ result]
  by (auto simp: list_tools_from_spec_def split: if_splits option.splits sum.splits)

text \<open>
  C7. A file whose name ends in \<^verbatim>\<open>.yaml\<close> or \<^verbatim>\<open>.yml\<close> is parsed as YAML, any other as
  JSON, and the parsed structure is what the extractor receives: the tools the extractor
  returns for it are the result when the printing loop accepts them, an error of the
  extractor is the result, and a result is always what the extractor returned for the
  structure parsed from the file. So a YAML file and a JSON file whose contents parse to
  the same structure give the same result, the tools extracted from that structure.
\<close>

theorem loader_by_suffix:
  "(is_yaml_name spec_file \<longleftrightarrow> (\<exists>p. spec_file = p @ ''.yaml'' \<or> spec_file = p @ ''.yml''))
   \<and> (is_yaml_name spec_file \<and> files spec_file = Some content
        \<and> yaml_safe_load content = Inr spec
        \<and> extract_tools spec = Inr tools \<and> list_all printable tools \<longrightarrow>
       list_tools_from_spec files yaml_safe_load json_load extract_tools spec_file = Inr tools)
   \<and> (\<not> is_yaml_name spec_file \<and> files spec_file = Some content
        \<and> json_load content = Inr spec
        \<and> extract_tools spec = Inr tools \<and> list_all printable tools \<longrightarrow>
       list_tools_from_spec files yaml_safe_load json_load extract_tools spec_file = Inr tools)
   \<and> (files spec_file = Some content
        \<and> (if is_yaml_name spec_file then yaml_safe_load content else json_load content)
            = Inr spec
        \<and> extract_tools spec = Inl e \<longrightarrow>
       list_tools_from_spec files yaml_safe_load json_load extract_tools spec_file = Inl e)
   \<and> (list_tools_from_spec files yaml_safe_load json_load extract_tools spec_file = Inr result \<longrightarrow>
       (\<exists>content' spec'. files spec_file = Some content'
          \<and> (if is_yaml_name spec_file then yaml_safe_load content' else json_load content')
              = Inr spec'
          \<and> extract_tools spec' = Inr result))
   \<and> (is_yaml_name yaml_file \<and> \<not> is_yaml_name json_file
        \<and> files yaml_file = Some yaml_text \<and> files json_file = Some json_text
        \<and> yaml_safe_load yaml_text = Inr doc \<and> json_load json_text = Inr doc \<longrightarrow>
       list_tools_from_spec files yaml_safe_load json_load extract_tools yaml_file
         = list_tools_from_spec files yaml_safe_load json_load extract_tools json_file
       \<and> (extract_tools doc = Inr tools \<and> list_all printable tools \<longrightarrow>
            list_tools_from_spec files yaml_safe_load json_load extract_tools yaml_file
              = Inr tools
            \<and> list_tools_from_spec files yaml_safe_load json_load extract_tools json_file
              = Inr tools))"
proof (intro conjI impI)
  show "is_yaml_name spec_file \<longleftrightarrow> (\<exists>p. spec_file = p @ ''.yaml'' \<or> spec_file = p @ ''.yml'')"
    unfolding is_yaml_name_def endswith_iff by blast
next
  assume "is_yaml_name spec_file \<and> files spec_file = Some content
        \<and> yaml_safe_load content = Inr spec
        \<and> extract_tools spec = Inr tools \<and> list_all printable tools"
  then show "list_tools_from_spec files yaml_safe_load json_load extract_tools spec_file
      = Inr tools"
    by (simp add: list_tools_from_spec_def tools_of_spec_returns)
next
  assume "\<not> is_yaml_name spec_file \<and> files spec_file = Some content
        \<and> json_load content = Inr spec
        \<and> extract_tools spec = Inr tools \<and> list_all printable tools"
  then show "list_tools_from_spec files yaml_safe_load json_load extract_tools spec_file
      = Inr tools"
    by (simp add: list_tools_from_spec_def tools_of_spec_returns)
next
  assume "files spec_file = Some content
        \<and> (if is_yaml_name spec_file then yaml_safe_load content else json_load content)
            = Inr spec
        \<and> extract_tools spec = Inl e"
  then show "list_tools_from_spec files yaml_safe_load json_load extract_tools spec_file = Inl e"
    by (simp add: list_tools_from_spec_def tools_of_spec_error split: if_splits)
next
  assume "list_tools_from_spec files yaml_safe_load json_load extract_tools spec_file = Inr result"
  then show "\<exists>content' spec'. files spec_file = Some content'
          \<and> (if is_yaml_name spec_file then yaml_safe_load content' else json_load content')
              = Inr spec'
          \<and> extract_tools spec' = Inr result"
    by (rule list_tools_from_spec_extracted)
next
  assume a: "is_yaml_name yaml_file \<and> \<not> is_yaml_name json_file
        \<and> files yaml_file = Some yaml_text \<and> files json_file = Some json_text
        \<and> yaml_safe_load yaml_text = Inr doc \<and> json_load json_text = Inr doc"
  then show "list_tools_from_spec files yaml_safe_load json_load extract_tools yaml_file
         = list_tools_from_spec files yaml_safe_load json_load extract_tools json_file"
    by (simp add: list_tools_from_spec_def)
  assume "extract_tools doc = Inr tools \<and> list_all printable tools"
  with a show "list_tools_from_spec files yaml_safe_load json_load extract_tools yaml_file
              = Inr tools"
    by (simp add: list_tools_from_spec_def tools_of_spec_returns)
  assume "extract_tools doc = Inr tools \<and> list_all printable tools"
  with a show "list_tools_from_spec files yaml_safe_load json_load extract_tools json_file
              = Inr tools"
    by (simp add: list_tools_from_spec_def tools_of_spec_returns)
qed

theorem loader_by_suffix_witness:
  "list_tools_from_spec
     [''api.yaml'' \<mapsto> ''paths: {}'',
      ''api.json'' \<mapsto> ''{'' @ [CHR 0x22] @ ''paths'' @ [CHR 0x22] @ '': {}}'']
     (\<lambda>t. if t = ''paths: {}'' then Inr (JDict [(''paths'', JDict [])]) else Inl ParseError)
     (\<lambda>t. if t = ''{'' @ [CHR 0x22] @ ''paths'' @ [CHR 0x22] @ '': {}}''
          then Inr (JDict [(''paths'', JDict [])]) else Inl ParseError)
     (\<lambda>d. if d = JDict [(''paths'', JDict [])]
          then Inr [JDict [(''name'', JStr ''ping''), (''description'', JStr ''Ping'')]]
          else Inl ParseError)
     ''api.yaml''
   = Inr [JDict [(''name'', JStr ''ping''), (''description'', JStr ''Ping'')]]
   \<and> list_tools_from_spec
     [''api.yaml'' \<mapsto> ''paths: {}'',
      ''api.json'' \<mapsto> ''{'' @ [CHR 0x22] @ ''paths'' @ [CHR 0x22] @ '': {}}'']
     (\<lambda>t. if t = ''paths: {}'' then Inr (JDict [(''paths'', JDict [])]) else Inl ParseError)
     (\<lambda>t. if t = ''{'' @ [CHR 0x22] @ ''paths'' @ [CHR 0x22] @ '': {}}''
          then Inr (JDict [(''paths'', JDict [])]) else Inl ParseError)
     (\<lambda>d. if d = JDict [(''paths'', JDict [])]
          then Inr [JDict [(''name'', JStr ''ping''), (''description'', JStr ''Ping'')]]
          else Inl ParseError)
     ''api.json''
   = Inr [JDict [(''name'', JStr ''ping''), (''description'', JStr ''Ping'')]]
   \<and> is_yaml_name ''api.yaml'' \<and> is_yaml_name ''spec.yml''
   \<and> \<not> is_yaml_name ''api.json'' \<and> \<not> is_yaml_name ''API.YAML''"
proof -
  let ?files = "[''api.yaml'' \<mapsto> ''paths: {}'',
      ''api.json'' \<mapsto> ''{'' @ [CHR 0x22] @ ''paths'' @ [CHR 0x22] @ '': {}}'']"
  let ?yaml = "\<lambda>t. if t = ''paths: {}'' then Inr (JDict [(''paths'', JDict [])])
      else Inl ParseError"
  let ?json = "\<lambda>t. if t = ''{'' @ [CHR 0x22] @ ''paths'' @ [CHR 0x22] @ '': {}}''
      then Inr (JDict [(''paths'', JDict [])]) else Inl ParseError"
  let ?tools = "[JDict [(''name'', JStr ''ping''), (''description'', JStr ''Ping'')]]"
  let ?extractor = "\<lambda>d. if d = JDict [(''paths'', JDict [])]
      then Inr ?tools else Inl ParseError"
  have names: "is_yaml_name ''api.yaml''" "is_yaml_name ''spec.yml''"
    "\<not> is_yaml_name ''api.json''" "\<not> is_yaml_name ''API.YAML''"
    by (simp_all add: is_yaml_name_def endswith_def)
  have fy: "?files ''api.yaml'' = Some ''paths: {}''"
    and fj: "?files ''api.json'' = Some (''{'' @ [CHR 0x22] @ ''paths'' @ [CHR 0x22] @ '': {}}'')"
    by simp_all
  have py: "?yaml ''paths: {}'' = Inr (JDict [(''paths'', JDict [])])"
    and pj: "?json (''{'' @ [CHR 0x22] @ ''paths'' @ [CHR 0x22] @ '': {}}'')
              = Inr (JDict [(''paths'', JDict [])])"
    by simp_all
  have ex: "?extractor (JDict [(''paths'', JDict [])]) = Inr ?tools"
    and pr: "list_all printable ?tools"
    by simp_all
  have both: "list_tools_from_spec ?files ?yaml ?json ?extractor ''api.yaml'' = Inr ?tools
      \<and> list_tools_from_spec ?files ?yaml ?json ?extractor ''api.json'' = Inr ?tools"
    using loader_by_suffix [where files = ?files and yaml_safe_load = ?yaml
        and json_load = ?json and extract_tools = ?extractor
        and yaml_file = "''api.yaml''" and json_file = "''api.json''"
        and yaml_text = "''paths: {}''"
        and json_text = "''{'' @ [CHR 0x22] @ ''paths'' @ [CHR 0x22] @ '': {}}''"
        and doc = "JDict [(''paths'', JDict [])]" and tools = ?tools]
      names(1) names(3) fy fj py pj ex pr
    by blast
  show ?thesis using both names by simp
qed

section \<open>The catalog as JSON\<close>

text \<open>
  \<^verbatim>\<open>export_tools_to_json\<close> writes the catalog with \<^verbatim>\<open>json.dump(..., indent=2)\<close> and
  \<^verbatim>\<open>client_example.main\<close> reads one with \<^verbatim>\<open>response.json()["tools"]\<close>. The \<^verbatim>\<open>json\<close>
  module is Python's standard library and not a file of the repository; its encoder and
  its decoder are written out here for the values of type \<open>json\<close>, so that what is
  read back from a written catalog is computed and not assumed.
\<close>


subsection \<open>The text \<^verbatim>\<open>json.dump\<close> writes\<close>













subsection \<open>The value \<^verbatim>\<open>json.loads\<close> reads\<close>

text \<open>The whitespace of JSON: space, tab, newline and carriage return.\<close>

definition is_ws :: "char \<Rightarrow> bool" where
  "is_ws c = (c = CHR '' '' \<or> c = CHR 0x09 \<or> c = newline \<or> c = CHR 0x0D)"

definition skip_ws :: "string \<Rightarrow> string" where
  "skip_ws s = dropWhile is_ws s"












subsection \<open>Writing the catalog and reading it\<close>










subsection \<open>The decoder reads what the encoder wrote\<close>





















lemma skip_ws_idem: "skip_ws (skip_ws s) = skip_ws s"
  unfolding skip_ws_def by (induction s) simp_all






















section \<open>The Tool Extractor\<close>

text \<open>
  The extractor (\<^verbatim>\<open>OpenAPIParser.extract_tools\<close> of \<^verbatim>\<open>openapi2mcp.openapi_parser\<close>) is not
  among the sources; the scripts only call it. This section models it from sections 3
  and 4.1 of the specification.
\<close>

text \<open>
  Modelled from the spec: the extractor's source is missing; the locations a parameter
  binds to.
\<close>

datatype location = InPath | InQuery | InHeader | InCookie | InBody

text \<open>
  Modelled from the spec: the extractor's source is missing; a schema fragment with its
  declared type, enum and format, each optional.
\<close>

record schema_fragment =
  schema_type :: "string option"
  schema_enum :: "json list option"
  schema_format :: "string option"

text \<open>
  Modelled from the spec: the extractor's source is missing; a declared parameter (path,
  query, header or cookie) of an operation.
\<close>

record parameter_decl =
  param_name :: string
  param_in :: location
  param_required :: bool
  param_schema :: schema_fragment

text \<open>
  Modelled from the spec: the extractor's source is missing; an operation of the document
  with its optional identifier, its description, its declared parameters, and the
  properties of its request body with the names the body marks required.
\<close>

record operation =
  operation_id :: "string option"
  op_description :: string
  op_parameters :: "parameter_decl list"
  body_properties :: "(string \<times> schema_fragment) list"
  body_required :: "string list"

text \<open>
  Modelled from the spec: the extractor's source is missing; an entry of the document is
  an operation that can be converted, or a malformed fragment.
\<close>

datatype operation_entry = WellFormed operation | Malformed

text \<open>
  Modelled from the spec: the extractor's source is missing; the document lists its
  paths, and under each path its methods, in the order they are declared.
\<close>

type_synonym openapi_document = "(string \<times> (string \<times> operation_entry) list) list"

text \<open>
  Modelled from the spec: the extractor's source is missing; a Tool with its name,
  description, parameters (properties and required) and operation binding (method, path
  template and the location of each parameter).
\<close>

record tool =
  name :: string
  description :: string
  properties :: "(string \<times> schema_fragment) list"
  required :: "string list"
  http_method :: string
  path_template :: string
  locations :: "(string \<times> location) list"

text \<open>
  Modelled from the spec: the extractor's source is missing; the schema types it
  supports.
\<close>

definition supported_types :: "string list" where
  "supported_types = [''string'', ''integer'', ''number'', ''boolean'', ''array'', ''object'']"

text \<open>
  Modelled from the spec: the extractor's source is missing; a fragment keeps its enum and
  format, and its type when that is supported; a fragment of any other type is kept with
  its type omitted.
\<close>

definition property_schema :: "schema_fragment \<Rightarrow> schema_fragment" where
  "property_schema s =
     s\<lparr>schema_type :=
         (case schema_type s of
            None \<Rightarrow> None
          | Some t \<Rightarrow> if t \<in> set supported_types then Some t else None)\<rparr>"

text \<open>
  Modelled from the spec: the extractor's source is missing; one entry per declared parameter and per request-body property,
  with its name, its location, whether that source marks it required, and its schema.
\<close>

definition declared_entries ::
  "operation \<Rightarrow> (string \<times> location \<times> bool \<times> schema_fragment) list" where
  "declared_entries opn =
     map (\<lambda>p. (param_name p, param_in p, param_required p, property_schema (param_schema p)))
       (op_parameters opn)
     @ map (\<lambda>(n, s). (n, InBody, n \<in> set (body_required opn), property_schema s))
       (body_properties opn)"

text \<open>
  Modelled from the spec: the extractor's source is missing; \<^verbatim>\<open>parameters.properties\<close>, built
  entry by entry (a name declared twice keeps its place and takes the later entry).
\<close>

definition tool_props ::
  "(string \<times> location \<times> bool \<times> schema_fragment) list \<Rightarrow> (string \<times> schema_fragment) list" where
  "tool_props es = fold (\<lambda>(n, l, r, s) acc. AList.update n s acc) es []"

text \<open>
  Modelled from the spec: the extractor's source is missing; the location bindings, built
  as the properties are.
\<close>

definition tool_locations ::
  "(string \<times> location \<times> bool \<times> schema_fragment) list \<Rightarrow> (string \<times> location) list" where
  "tool_locations es = fold (\<lambda>(n, l, r, s) acc. AList.update n l acc) es []"

text \<open>
  Modelled from the spec: the extractor's source is missing; \<^verbatim>\<open>parameters.required\<close>, the
  property names that some source location marks required.
\<close>

definition tool_required_names ::
  "(string \<times> location \<times> bool \<times> schema_fragment) list \<Rightarrow> string list" where
  "tool_required_names es =
     filter (\<lambda>n. list_ex (\<lambda>(n', l, r, s). n' = n \<and> r) es) (map fst (tool_props es))"

text \<open>
  Modelled from the spec: the extractor's source is missing; the Tool of one operation,
  given its resolved name.
\<close>

definition make_tool :: "string \<Rightarrow> string \<Rightarrow> string \<Rightarrow> operation \<Rightarrow> tool" where
  "make_tool nm path meth opn =
     \<lparr>name = nm,
      description = op_description opn,
      properties = tool_props (declared_entries opn),
      required = tool_required_names (declared_entries opn),
      http_method = meth,
      path_template = path,
      locations = tool_locations (declared_entries opn)\<rparr>"

text \<open>
  Modelled from the spec: the extractor's source is missing; the synthesized name
  \<^verbatim>\<open><method><PathWithoutSlashes>\<close>.
\<close>

definition synthesized_name :: "string \<Rightarrow> string \<Rightarrow> string" where
  "synthesized_name meth path = meth @ filter (\<lambda>c. c \<noteq> CHR ''/'') path"

text \<open>
  Modelled from the spec: the extractor's source is missing; the name is the operation
  identifier when there is one, and the synthesized name otherwise.
\<close>

definition base_name :: "string \<Rightarrow> string \<Rightarrow> operation \<Rightarrow> string" where
  "base_name meth path opn =
     (case operation_id opn of Some i \<Rightarrow> i | None \<Rightarrow> synthesized_name meth path)"

text \<open>
  Modelled from the spec: the extractor's source is missing; a numeric suffix is the
  decimal digits of a number.
\<close>

fun decimal :: "nat \<Rightarrow> string" where
  "decimal n =
     (if n < 10 then [char_of (48 + n)]
      else decimal (n div 10) @ [char_of (48 + n mod 10)])"

declare decimal.simps [simp del]

text \<open>
  Modelled from the spec: the extractor's source is missing; a name not yet used is kept; a name already used gets the
  first numeric suffix, from 2 on, that gives a name not yet used. Among as many
  candidates as there are used names plus one, one is free.
\<close>

definition unique_name :: "string list \<Rightarrow> string \<Rightarrow> string" where
  "unique_name used base =
     (if base \<notin> set used then base
      else (case find (\<lambda>n. base @ decimal n \<notin> set used) [2 ..< length used + 3] of
              Some n \<Rightarrow> base @ decimal n
            | None \<Rightarrow> base))"

text \<open>
  Modelled from the spec: the extractor's source is missing; the operations are converted in order, each name resolved
  against the names given so far; a malformed entry is skipped and recorded as an
  extraction error, and the rest of the catalog is built all the same.
\<close>

fun extract_entries ::
  "(string \<times> string \<times> operation_entry) list \<Rightarrow> string list \<Rightarrow>
   tool list \<times> (string \<times> string) list" where
  "extract_entries [] used = ([], [])"
| "extract_entries ((path, meth, Malformed) # es) used =
     (case extract_entries es used of (ts, errs) \<Rightarrow> (ts, (path, meth) # errs))"
| "extract_entries ((path, meth, WellFormed opn) # es) used =
     (let nm = unique_name used (base_name meth path opn)
      in (case extract_entries es (nm # used) of
            (ts, errs) \<Rightarrow> (make_tool nm path meth opn # ts, errs)))"

text \<open>
  Modelled from the spec: the extractor's source is missing; the entries of a document as
  (path, method, entry), in declaration order.
\<close>

definition document_entries ::
  "openapi_document \<Rightarrow> (string \<times> string \<times> operation_entry) list" where
  "document_entries doc = concat (map (\<lambda>(path, ms). map (\<lambda>(meth, e). (path, meth, e)) ms) doc)"

text \<open>
  Modelled from the spec: the extractor's source is missing; the (path, method) an entry
  is declared under.
\<close>

definition entry_key :: "string \<times> string \<times> operation_entry \<Rightarrow> string \<times> string" where
  "entry_key e = (fst e, fst (snd e))"

text \<open>
  Modelled from the spec: the extractor's source is missing; the stable ordering is by path, then by method, then by
  declaration order: a stable sort of the entries on (path, method).
\<close>

definition ordered_entries ::
  "openapi_document \<Rightarrow> (string \<times> string \<times> operation_entry) list" where
  "ordered_entries doc = sort_key entry_key (document_entries doc)"

text \<open>
  Modelled from the spec: the extractor's source is missing; \<^verbatim>\<open>extract_tools(document)\<close>
  gives the ordered tools and the recorded extraction errors.
\<close>

definition extract_tools :: "openapi_document \<Rightarrow> tool list \<times> (string \<times> string) list" where
  "extract_tools doc = extract_entries (ordered_entries doc) []"

text \<open>
  Modelled from the spec: the extractor's source is missing; a valid operation is an
  entry that is not malformed.
\<close>

definition is_well_formed :: "string \<times> string \<times> operation_entry \<Rightarrow> bool" where
  "is_well_formed e = (case snd (snd e) of WellFormed opn \<Rightarrow> True | Malformed \<Rightarrow> False)"


text \<open>
  Modelled from the spec: the extractor's source is missing; a tool is the conversion of
  an entry when the entry is a well-formed operation and the tool is the one made from it
  under the tool's name.
\<close>

definition converts :: "tool \<Rightarrow> string \<times> string \<times> operation_entry \<Rightarrow> bool" where
  "converts t e =
     (case snd (snd e) of
        Malformed \<Rightarrow> False
      | WellFormed opn \<Rightarrow> t = make_tool (name t) (fst e) (fst (snd e)) opn)"

text \<open>A document with two operations of the same identifier and a malformed one.\<close>

definition example_document :: openapi_document where
  "example_document =
     [(''/users'',
        [(''post'', WellFormed
            \<lparr>operation_id = Some ''getUsers'', op_description = ''Create a user'',
             op_parameters = [],
             body_properties =
               [(''email'', \<lparr>schema_type = Some ''string'', schema_enum = None,
                              schema_format = Some ''email''\<rparr>),
                (''age'', \<lparr>schema_type = Some ''int32'', schema_enum = None,
                            schema_format = None\<rparr>)],
             body_required = [''email'', ''ghost'']\<rparr>),
         (''get'', WellFormed
            \<lparr>operation_id = Some ''getUsers'', op_description = ''List users'',
             op_parameters =
               [\<lparr>param_name = ''limit'', param_in = InQuery, param_required = False,
                 param_schema = \<lparr>schema_type = Some ''integer'', schema_enum = None,
                                  schema_format = None\<rparr>\<rparr>],
             body_properties = [], body_required = []\<rparr>)]),
      (''/pets/{id}'',
        [(''get'', WellFormed
            \<lparr>operation_id = None, op_description = ''Get a pet'',
             op_parameters =
               [\<lparr>param_name = ''id'', param_in = InPath, param_required = True,
                 param_schema = \<lparr>schema_type = Some ''integer'', schema_enum = None,
                                  schema_format = None\<rparr>\<rparr>],
             body_properties = [], body_required = []\<rparr>),
         (''put'', Malformed)])]"

subsection \<open>Properties of the extractor\<close>

lemma char_of_digit_inj:
  "a < 10 \<Longrightarrow> b < 10 \<Longrightarrow> (char_of (48 + a) :: char) = char_of (48 + b) \<Longrightarrow> a = (b::nat)"
proof -
  assume a: "a < 10" and b: "b < 10" and e: "(char_of (48 + a) :: char) = char_of (48 + b)"
  have "of_char (char_of (48 + a) :: char) = (of_char (char_of (48 + b) :: char) :: nat)"
    using e by simp
  then have "(48 + a) mod 256 = (48 + b) mod 256"
    by (simp only: of_char_of)
  then show "a = b" using a b by simp
qed

lemma decimal_nonempty: "decimal n \<noteq> []"
  by (subst decimal.simps) simp

lemma decimal_last: "last (decimal n) = char_of (48 + n mod 10)"
  by (subst decimal.simps) simp

lemma decimal_butlast: "butlast (decimal n) = (if n < 10 then [] else decimal (n div 10))"
  by (subst decimal.simps) (simp add: butlast_append)

lemma decimal_inj: "decimal n = decimal m \<Longrightarrow> n = m"
proof (induction n arbitrary: m rule: decimal.induct)
  case (1 n)
  have l: "n mod 10 = m mod 10"
  proof -
    have "last (decimal n) = last (decimal m)" using "1.prems" by simp
    then have "(char_of (48 + n mod 10) :: char) = char_of (48 + m mod 10)"
      by (simp only: decimal_last)
    then show ?thesis by (rule char_of_digit_inj [rotated 2]) simp_all
  qed
  have b: "butlast (decimal n) = butlast (decimal m)" using "1.prems" by simp
  show ?case
  proof (cases "n < 10")
    case True
    then have "butlast (decimal m) = []" using b by (simp add: decimal_butlast)
    then have "m < 10" using decimal_nonempty [of "m div 10"]
      by (simp add: decimal_butlast split: if_splits)
    then show ?thesis using True l by simp
  next
    case False
    then have bn: "butlast (decimal n) = decimal (n div 10)" by (simp add: decimal_butlast)
    have "\<not> m < 10"
    proof
      assume "m < 10"
      then have "butlast (decimal m) = []" by (simp add: decimal_butlast)
      then show False using b bn decimal_nonempty [of "n div 10"] by simp
    qed
    then have "decimal (n div 10) = decimal (m div 10)"
      using b bn by (simp add: decimal_butlast)
    then have "n div 10 = m div 10" using "1.IH" False by blast
    then show ?thesis using l by (metis div_mult_mod_eq)
  qed
qed

lemma suffix_free:
  "\<exists>n \<in> set [2 ..< length used + 3]. base @ decimal n \<notin> set used"
proof (rule ccontr)
  assume "\<not> ?thesis"
  then have sub: "(\<lambda>n. base @ decimal n) ` {2 ..< length used + 3} \<subseteq> set used"
    by auto
  have "inj_on (\<lambda>n. base @ decimal n) {2 ..< length used + 3}"
    by (rule inj_onI) (simp add: decimal_inj)
  then have "card ((\<lambda>n. base @ decimal n) ` {2 ..< length used + 3}) = length used + 1"
    by (simp add: card_image)
  moreover have "card ((\<lambda>n. base @ decimal n) ` {2 ..< length used + 3}) \<le> card (set used)"
    using sub by (simp add: card_mono)
  moreover have "card (set used) \<le> length used" by (rule card_length)
  ultimately show False by simp
qed

lemma unique_name_fresh: "unique_name used base \<notin> set used"
proof (cases "base \<in> set used")
  case False
  then show ?thesis by (simp add: unique_name_def)
next
  case True
  obtain n where "find (\<lambda>n. base @ decimal n \<notin> set used) [2 ..< length used + 3] = Some n"
    using suffix_free [of used base] by (fastforce simp: find_None_iff)
  moreover from this have "base @ decimal n \<notin> set used"
    by (auto simp: find_Some_iff)
  ultimately show ?thesis using True by (simp add: unique_name_def)
qed

lemma unique_name_cases:
  "(base \<notin> set used \<and> unique_name used base = base)
   \<or> (base \<in> set used \<and> (\<exists>n\<ge>2. unique_name used base = base @ decimal n))"
proof (cases "base \<in> set used")
  case False
  then show ?thesis by (simp add: unique_name_def)
next
  case True
  obtain n where f: "find (\<lambda>n. base @ decimal n \<notin> set used) [2 ..< length used + 3] = Some n"
    using suffix_free [of used base] by (fastforce simp: find_None_iff)
  then have "n \<in> set [2 ..< length used + 3]"
    by (auto simp: find_Some_iff)
  then have "2 \<le> n" by simp
  then show ?thesis using True f by (auto simp: unique_name_def)
qed

lemma required_subset_properties:
  "set (required (make_tool nm path meth opn)) \<subseteq> fst ` set (properties (make_tool nm path meth opn))"
  by (auto simp: make_tool_def tool_required_names_def)

lemma extract_entries_names:
  "distinct (map name (fst (extract_entries es used)))
   \<and> (\<forall>t \<in> set (fst (extract_entries es used)). name t \<notin> set used)"
proof (induction es used rule: extract_entries.induct)
  case (1 used)
  then show ?case by simp
next
  case (2 path meth es used)
  then show ?case by (auto split: prod.splits)
next
  case (3 path meth opn es used)
  let ?nm = "unique_name used (base_name meth path opn)"
  have f: "?nm \<notin> set used" by (rule unique_name_fresh)
  have ih: "distinct (map name (fst (extract_entries es (?nm # used))))
     \<and> (\<forall>t \<in> set (fst (extract_entries es (?nm # used))). name t \<notin> set (?nm # used))"
    using "3.IH" by simp
  then show ?case using f
    by (auto simp: Let_def make_tool_def split: prod.splits)
qed

lemma extract_entries_converts:
  "list_all2 converts (fst (extract_entries es used)) (filter is_well_formed es)"
proof (induction es used rule: extract_entries.induct)
  case (1 used)
  then show ?case by simp
next
  case (2 path meth es used)
  then show ?case by (auto simp: is_well_formed_def split: prod.splits)
next
  case (3 path meth opn es used)
  then show ?case
    by (auto simp: is_well_formed_def converts_def Let_def make_tool_def split: prod.splits)
qed

lemma extract_entries_errors:
  "snd (extract_entries es used) = map entry_key (filter (\<lambda>e. \<not> is_well_formed e) es)"
proof (induction es used rule: extract_entries.induct)
  case (1 used)
  then show ?case by simp
next
  case (2 path meth es used)
  then show ?case by (auto simp: is_well_formed_def entry_key_def split: prod.splits)
next
  case (3 path meth opn es used)
  then show ?case
    by (auto simp: is_well_formed_def Let_def split: prod.splits)
qed

lemma extract_entries_keys:
  "map (\<lambda>t. (path_template t, http_method t)) (fst (extract_entries es used))
     = map entry_key (filter is_well_formed es)"
proof (induction es used rule: extract_entries.induct)
  case (1 used)
  then show ?case by simp
next
  case (2 path meth es used)
  then show ?case by (auto simp: is_well_formed_def split: prod.splits)
next
  case (3 path meth opn es used)
  then show ?case
    by (auto simp: is_well_formed_def entry_key_def Let_def make_tool_def split: prod.splits)
qed

lemma extract_entries_required:
  "\<forall>t \<in> set (fst (extract_entries es used)). set (required t) \<subseteq> fst ` set (properties t)"
proof (induction es used rule: extract_entries.induct)
  case (1 used)
  then show ?case by simp
next
  case (2 path meth es used)
  then show ?case by (auto split: prod.splits)
next
  case (3 path meth opn es used)
  then show ?case
    using required_subset_properties [of "unique_name used (base_name meth path opn)" path meth opn]
    by (auto simp: Let_def split: prod.splits)
qed

lemma ordered_entries_sorted: "sorted (map entry_key (filter is_well_formed (ordered_entries doc)))"
proof -
  have "sorted (map entry_key (ordered_entries doc))"
    by (simp add: ordered_entries_def)
  then show ?thesis by (rule sorted_filter)
qed

lemma ordered_entries_mset:
  "mset (filter is_well_formed (ordered_entries doc)) = mset (filter is_well_formed (document_entries doc))"
  by (simp add: ordered_entries_def)

lemma ordered_entries_stable:
  "filter (\<lambda>e. entry_key e = k) (ordered_entries doc) = filter (\<lambda>e. entry_key e = k) (document_entries doc)"
  by (simp add: ordered_entries_def sort_key_stable)

lemma extract_entries_fst_Malformed:
  "fst (extract_entries ((p, m, Malformed) # es) used) = fst (extract_entries es used)"
  by (simp split: prod.splits)

lemma extract_entries_first_seen:
  "i < length (filter is_well_formed es) \<Longrightarrow>
   filter is_well_formed es ! i = (path, meth, WellFormed opn) \<Longrightarrow>
   (base_name meth path opn \<notin> set used \<union> name ` set (take i (fst (extract_entries es used)))
      \<and> name (fst (extract_entries es used) ! i) = base_name meth path opn)
   \<or> (base_name meth path opn \<in> set used \<union> name ` set (take i (fst (extract_entries es used)))
      \<and> (\<exists>n\<ge>2. name (fst (extract_entries es used) ! i) = base_name meth path opn @ decimal n))"
proof (induction es used arbitrary: i rule: extract_entries.induct)
  case (1 used)
  then show ?case by simp
next
  case (2 p m es used)
  have "filter is_well_formed ((p, m, Malformed) # es) = filter is_well_formed es"
    by (simp add: is_well_formed_def)
  then have "i < length (filter is_well_formed es)"
    and "filter is_well_formed es ! i = (path, meth, WellFormed opn)"
    using "2.prems" by simp_all
  from "2.IH" [OF this] show ?case
    unfolding extract_entries_fst_Malformed .
next
  case (3 p m o' es used)
  let ?nm = "unique_name used (base_name m p o')"
  have wf: "filter is_well_formed ((p, m, WellFormed o') # es)
      = (p, m, WellFormed o') # filter is_well_formed es"
    by (simp add: is_well_formed_def)
  have ex: "fst (extract_entries ((p, m, WellFormed o') # es) used)
      = make_tool ?nm p m o' # fst (extract_entries es (?nm # used))"
    by (simp add: Let_def split: prod.splits)
  have nm: "name (make_tool ?nm p m o') = ?nm"
    by (simp add: make_tool_def)
  show ?case
  proof (cases i)
    case 0
    then have "p = path" "m = meth" "o' = opn"
      using "3.prems"(2) wf by simp_all
    then show ?thesis
      using 0 ex nm unique_name_cases [of "base_name meth path opn" used] by auto
  next
    case (Suc j)
    then have "j < length (filter is_well_formed es)"
      and "filter is_well_formed es ! j = (path, meth, WellFormed opn)"
      using "3.prems" wf by simp_all
    from "3.IH" [OF refl this]
    show ?thesis unfolding ex Suc using nm by simp
  qed
qed

lemma fold_update_keys:
  "map fst acc1 = map fst acc2 \<Longrightarrow>
   map fst (fold (\<lambda>(n, l, r, s) acc. AList.update n s acc) es acc1)
   = map fst (fold (\<lambda>(n, l, r, s) acc. AList.update n l acc) es acc2)"
proof (induction es arbitrary: acc1 acc2)
  case Nil
  then show ?case by simp
next
  case (Cons e es)
  obtain n l r s where e: "e = (n, l, r, s)" by (cases e)
  have "map fst (AList.update n s acc1) = map fst (AList.update n l acc2)"
    using Cons.prems by (simp add: AList.update_keys)
  from Cons.IH [OF this] show ?case by (simp add: e)
qed

lemma make_tool_bindings:
  "map fst (properties (make_tool nm path meth opn)) = map fst (locations (make_tool nm path meth opn))"
  by (simp add: make_tool_def tool_props_def tool_locations_def fold_update_keys)

lemma converts_bindings:
  "converts t e \<Longrightarrow> map fst (properties t) = map fst (locations t)"
proof (cases "snd (snd e)")
  case (WellFormed opn)
  assume "converts t e"
  then have "t = make_tool (name t) (fst e) (fst (snd e)) opn"
    using WellFormed by (simp add: converts_def)
  then show ?thesis by (metis make_tool_bindings)
next
  case Malformed
  assume "converts t e"
  then show ?thesis using Malformed by (simp add: converts_def)
qed


text \<open>
  C1. The tools extracted from a document are, one for one and in order, the conversions
  of its well-formed operations (the same operations, as a multiset, as in the document;
  the malformed entries are the recorded errors), and in every tool the names in
  \<^verbatim>\<open>required\<close> are among the keys of \<^verbatim>\<open>properties\<close>, each of which has a location binding.
\<close>

theorem extract_one_tool_per_operation:
  "list_all2 converts (fst (extract_tools doc)) (filter is_well_formed (ordered_entries doc))
   \<and> mset (filter is_well_formed (ordered_entries doc))
       = mset (filter is_well_formed (document_entries doc))
   \<and> length (fst (extract_tools doc)) = length (filter is_well_formed (document_entries doc))
   \<and> snd (extract_tools doc)
       = map entry_key (filter (\<lambda>e. \<not> is_well_formed e) (ordered_entries doc))
   \<and> (\<forall>t \<in> set (fst (extract_tools doc)).
         set (required t) \<subseteq> fst ` set (properties t)
         \<and> map fst (properties t) = map fst (locations t))"
proof -
  have c: "list_all2 converts (fst (extract_tools doc)) (filter is_well_formed (ordered_entries doc))"
    unfolding extract_tools_def by (rule extract_entries_converts)
  have m: "mset (filter is_well_formed (ordered_entries doc))
       = mset (filter is_well_formed (document_entries doc))"
    by (rule ordered_entries_mset)
  have "length (fst (extract_tools doc)) = length (filter is_well_formed (ordered_entries doc))"
    using c by (rule list_all2_lengthD)
  also have "\<dots> = size (mset (filter is_well_formed (ordered_entries doc)))"
    by (rule size_mset [symmetric])
  also have "\<dots> = length (filter is_well_formed (document_entries doc))"
    unfolding m by (rule size_mset)
  finally have l: "length (fst (extract_tools doc))
      = length (filter is_well_formed (document_entries doc))" .
  have e: "snd (extract_tools doc)
       = map entry_key (filter (\<lambda>e. \<not> is_well_formed e) (ordered_entries doc))"
    unfolding extract_tools_def by (rule extract_entries_errors)
  have r: "\<forall>t \<in> set (fst (extract_tools doc)). set (required t) \<subseteq> fst ` set (properties t)"
    unfolding extract_tools_def by (rule extract_entries_required)
  have b: "\<forall>t \<in> set (fst (extract_tools doc)). map fst (properties t) = map fst (locations t)"
  proof
    fix t assume "t \<in> set (fst (extract_tools doc))"
    then obtain i where i: "i < length (fst (extract_tools doc))"
      and t: "fst (extract_tools doc) ! i = t"
      by (auto simp: in_set_conv_nth)
    have "converts (fst (extract_tools doc) ! i)
        (filter is_well_formed (ordered_entries doc) ! i)"
      using c i by (simp add: list_all2_conv_all_nth)
    then have "converts t (filter is_well_formed (ordered_entries doc) ! i)"
      using t by simp
    then show "map fst (properties t) = map fst (locations t)" by (rule converts_bindings)
  qed
  show ?thesis using c m l e r b by blast
qed

theorem extract_one_tool_per_operation_witness:
  "length (fst (extract_tools example_document)) = 3
   \<and> length (filter is_well_formed (document_entries example_document)) = 3
   \<and> snd (extract_tools example_document) = [(''/pets/{id}'', ''put'')]
   \<and> map required (fst (extract_tools example_document)) = [[''id''], [], [''email'']]
   \<and> map (map fst \<circ> properties) (fst (extract_tools example_document))
       = [[''id''], [''limit''], [''email'', ''age'']]
   \<and> list_all (\<lambda>t. set (required t) \<subseteq> fst ` set (properties t))
       (fst (extract_tools example_document))"
proof -
  have ev: "length (filter is_well_formed (document_entries example_document)) = 3
   \<and> snd (extract_tools example_document) = [(''/pets/{id}'', ''put'')]
   \<and> map required (fst (extract_tools example_document)) = [[''id''], [], [''email'']]
   \<and> map (map fst \<circ> properties) (fst (extract_tools example_document))
       = [[''id''], [''limit''], [''email'', ''age'']]"
    unfolding example_document_def by code_simp
  have th: "length (fst (extract_tools example_document))
       = length (filter is_well_formed (document_entries example_document))
     \<and> (\<forall>t \<in> set (fst (extract_tools example_document)).
         set (required t) \<subseteq> fst ` set (properties t)
         \<and> map fst (properties t) = map fst (locations t))"
    using extract_one_tool_per_operation [of example_document] by blast
  then have "list_all (\<lambda>t. set (required t) \<subseteq> fst ` set (properties t))
       (fst (extract_tools example_document))"
    by (simp add: list_all_iff)
  then show ?thesis using ev th by simp
qed

text \<open>
  C5. The names of the tools of one extraction are pairwise distinct. The tools come in
  the order of their (path, method), entries of the same path and method keeping their
  declaration order. A tool whose base name (the operation identifier, or the name
  synthesized from method and path) is not the name of an earlier tool keeps it;
  otherwise its name is the base name followed by the decimal digits of a number from 2
  on. The extractor is a function of the document, so its output is determined by it.
\<close>

theorem extract_names_unique_ordered:
  "distinct (map name (fst (extract_tools doc)))
   \<and> map (\<lambda>t. (path_template t, http_method t)) (fst (extract_tools doc))
       = map entry_key (filter is_well_formed (ordered_entries doc))
   \<and> sorted (map (\<lambda>t. (path_template t, http_method t)) (fst (extract_tools doc)))
   \<and> (\<forall>k. filter (\<lambda>e. entry_key e = k) (ordered_entries doc)
            = filter (\<lambda>e. entry_key e = k) (document_entries doc))
   \<and> (\<forall>i path meth opn.
         i < length (filter is_well_formed (ordered_entries doc))
         \<and> filter is_well_formed (ordered_entries doc) ! i = (path, meth, WellFormed opn) \<longrightarrow>
         (base_name meth path opn \<notin> name ` set (take i (fst (extract_tools doc)))
            \<and> name (fst (extract_tools doc) ! i) = base_name meth path opn)
         \<or> (base_name meth path opn \<in> name ` set (take i (fst (extract_tools doc)))
            \<and> (\<exists>n\<ge>2. name (fst (extract_tools doc) ! i) = base_name meth path opn @ decimal n)))"
proof (intro conjI allI impI)
  show "distinct (map name (fst (extract_tools doc)))"
    unfolding extract_tools_def using extract_entries_names by blast
  show k: "map (\<lambda>t. (path_template t, http_method t)) (fst (extract_tools doc))
       = map entry_key (filter is_well_formed (ordered_entries doc))"
    unfolding extract_tools_def by (rule extract_entries_keys)
  show "sorted (map (\<lambda>t. (path_template t, http_method t)) (fst (extract_tools doc)))"
    unfolding k by (rule ordered_entries_sorted)
next
  fix k
  show "filter (\<lambda>e. entry_key e = k) (ordered_entries doc)
            = filter (\<lambda>e. entry_key e = k) (document_entries doc)"
    by (rule ordered_entries_stable)
next
  fix i path meth opn
  assume "i < length (filter is_well_formed (ordered_entries doc))
         \<and> filter is_well_formed (ordered_entries doc) ! i = (path, meth, WellFormed opn)"
  then show "(base_name meth path opn \<notin> name ` set (take i (fst (extract_tools doc)))
            \<and> name (fst (extract_tools doc) ! i) = base_name meth path opn)
         \<or> (base_name meth path opn \<in> name ` set (take i (fst (extract_tools doc)))
            \<and> (\<exists>n\<ge>2. name (fst (extract_tools doc) ! i) = base_name meth path opn @ decimal n))"
    unfolding extract_tools_def
    using extract_entries_first_seen [of i "ordered_entries doc" path meth opn "[]"]
    by simp
qed

theorem extract_names_unique_ordered_witness:
  "map name (fst (extract_tools example_document))
     = [''getpets{id}'', ''getUsers'', ''getUsers2'']
   \<and> map (\<lambda>t. (path_template t, http_method t)) (fst (extract_tools example_document))
     = [(''/pets/{id}'', ''get''), (''/users'', ''get''), (''/users'', ''post'')]
   \<and> distinct (map name (fst (extract_tools example_document)))
   \<and> sorted (map (\<lambda>t. (path_template t, http_method t))
       (fst (extract_tools example_document)))"
proof -
  have ev: "map name (fst (extract_tools example_document))
     = [''getpets{id}'', ''getUsers'', ''getUsers2'']
   \<and> map (\<lambda>t. (path_template t, http_method t)) (fst (extract_tools example_document))
     = [(''/pets/{id}'', ''get''), (''/users'', ''get''), (''/users'', ''post'')]"
    unfolding example_document_def by code_simp
  have "distinct (map name (fst (extract_tools example_document)))
   \<and> sorted (map (\<lambda>t. (path_template t, http_method t))
       (fst (extract_tools example_document)))"
    using extract_names_unique_ordered [of example_document] by blast
  then show ?thesis using ev by blast
qed

section \<open>The Tool Dispatcher and the MCP Front Door\<close>

text \<open>
  The dispatcher and the front door (\<^verbatim>\<open>openapi2mcp.server\<close>) are not among the sources; the
  scripts only start the server and post to it. This section models them from sections
  3, 4.3, 4.4 and 7 of the specification.
\<close>

text \<open>
  Modelled from the spec: the server's source is missing; the error kinds of section 7.
\<close>

datatype error_kind =
    ExtractionError
  | ValidationError
  | NotFoundError
  | AuthenticationError
  | TransportError
  | UpstreamError

text \<open>
  Modelled from the spec: the server's source is missing; the HTTP request the dispatcher
  issues, with each parameter at its declared location and the authorization header
  when there is one.
\<close>

record http_request =
  request_method :: string
  request_path_template :: string
  request_path_parameters :: "(string \<times> json) list"
  request_query :: "(string \<times> json) list"
  request_headers :: "(string \<times> json) list"
  request_cookies :: "(string \<times> json) list"
  request_body :: "json option"
  request_authorization :: "string option"

text \<open>
  Modelled from the spec: the server's source is missing; the backend's response, its
  body already parsed as JSON or passed through as text.
\<close>

record http_response =
  response_status :: nat
  response_body :: json
  response_headers :: "(string \<times> string) list"

text \<open>
  Modelled from the spec: the server's source is missing; a ToolResult with its status,
  body, headers and, on failure, the error kind and message.
\<close>

record tool_result =
  result_status :: "nat option"
  result_body :: json
  result_headers :: "(string \<times> string) list"
  result_error :: "(error_kind \<times> string) option"

text \<open>
  Modelled from the spec: the server's source is missing; a result that carries only an
  error.
\<close>

definition failed :: "error_kind \<Rightarrow> string \<Rightarrow> tool_result" where
  "failed kind message =
     \<lparr>result_status = None, result_body = JNull, result_headers = [],
      result_error = Some (kind, message)\<rparr>"

text \<open>
  Modelled from the spec: the server's source is missing; the invocation parameters bound
  to one location.
\<close>

definition bound_to :: "tool \<Rightarrow> location \<Rightarrow> (string \<times> json) list \<Rightarrow> (string \<times> json) list" where
  "bound_to t loc params = filter (\<lambda>(n, v). map_of (locations t) n = Some loc) params"

text \<open>
  Modelled from the spec: the server's source is missing; the request for an invocation:
  path, query, header and cookie parameters at their locations, the remaining ones as
  a JSON body when the operation expects one.
\<close>

definition build_request :: "tool \<Rightarrow> (string \<times> json) list \<Rightarrow> string option \<Rightarrow> http_request" where
  "build_request t params authorization =
     \<lparr>request_method = http_method t,
      request_path_template = path_template t,
      request_path_parameters = bound_to t InPath params,
      request_query = bound_to t InQuery params,
      request_headers = bound_to t InHeader params,
      request_cookies = bound_to t InCookie params,
      request_body =
        (if InBody \<in> snd ` set (locations t)
         then Some (JDict (bound_to t InBody params)) else None),
      request_authorization = authorization\<rparr>"

text \<open>
  Modelled from the spec: the server's source is missing; the ToolResult of a response: a
  status outside 200..299 is flagged as an upstream failure, with the status kept.
\<close>

definition result_of_response :: "http_response \<Rightarrow> tool_result" where
  "result_of_response r =
     \<lparr>result_status = Some (response_status r),
      result_body = response_body r,
      result_headers = response_headers r,
      result_error =
        (if 200 \<le> response_status r \<and> response_status r < 300 then None
         else Some (UpstreamError, ''upstream failure''))\<rparr>"

text \<open>
  Modelled from the spec: the server's source is missing;
  \<^verbatim>\<open>invoke(tool, invocation_parameters)\<close>. The Token Manager's answer is \<open>None\<close> when
  authentication is not configured, a failure, or the authorization header value; the
  backend answers a request with a transport failure or a response. The result comes
  with the requests that were sent to the backend, in order.
\<close>

definition invoke ::
  "(string + string) option \<Rightarrow> (http_request \<Rightarrow> string + http_response) \<Rightarrow> tool \<Rightarrow>
   (string \<times> json) list \<Rightarrow> tool_result \<times> http_request list" where
  "invoke token backend t params =
     (if \<not> list_all (\<lambda>r. r \<in> fst ` set params) (required t)
      then (failed ValidationError ''missing required parameter'', [])
      else if \<not> list_all (\<lambda>(n, v). n \<in> fst ` set (properties t)) params
      then (failed ValidationError ''unknown parameter'', [])
      else
        (case token of
           Some (Inl detail) \<Rightarrow> (failed AuthenticationError detail, [])
         | _ \<Rightarrow>
             (let request =
                    build_request t params
                      (case token of Some (Inr header) \<Rightarrow> Some header | _ \<Rightarrow> None)
              in (case backend request of
                    Inl detail \<Rightarrow> (failed TransportError detail, [request])
                  | Inr response \<Rightarrow> (result_of_response response, [request])))))"

text \<open>
  Modelled from the spec: the server's source is missing; the response framing of the
  front door: a success payload or a structured error payload.
\<close>

datatype mcp_response = Success json | Failure error_kind string

definition frame :: "tool_result \<Rightarrow> mcp_response" where
  "frame r =
     (case result_error r of
        None \<Rightarrow> Success (result_body r)
      | Some (kind, message) \<Rightarrow> Failure kind message)"

text \<open>
  Modelled from the spec: the server's source is missing; the invocation behaviour of the
  front door: the tool is resolved by name in the active catalog (an unknown name is a
  NotFoundError), the dispatcher is called, and its result is framed.
\<close>

definition run_tool ::
  "tool list \<Rightarrow> (string + string) option \<Rightarrow> (http_request \<Rightarrow> string + http_response) \<Rightarrow>
   string \<Rightarrow> (string \<times> json) list \<Rightarrow> mcp_response \<times> http_request list" where
  "run_tool catalog token backend tool_name' params =
     (case find (\<lambda>t. name t = tool_name') catalog of
        None \<Rightarrow> (Failure NotFoundError ''unknown tool'', [])
      | Some t \<Rightarrow>
          (case invoke token backend t params of
             (r, sent) \<Rightarrow> (frame r, sent)))"

text \<open>
  C3. An invocation that omits a name of the tool's \<^verbatim>\<open>required\<close>, or gives a name that is
  not a key of the tool's \<^verbatim>\<open>properties\<close>, returns a ValidationError and sends no request
  to the backend.
\<close>

theorem invoke_validation:
  assumes "(\<exists>r \<in> set (required t). r \<notin> fst ` set params)
           \<or> (\<exists>n \<in> fst ` set params. n \<notin> fst ` set (properties t))"
  shows "(\<exists>message. fst (invoke token backend t params) = failed ValidationError message)
         \<and> snd (invoke token backend t params) = []"
proof (cases "list_all (\<lambda>r. r \<in> fst ` set params) (required t)")
  case False
  then show ?thesis by (auto simp: invoke_def)
next
  case True
  then have "\<not> (\<exists>r \<in> set (required t). r \<notin> fst ` set params)"
    by (simp add: list_all_iff)
  then have "\<exists>n \<in> fst ` set params. n \<notin> fst ` set (properties t)"
    using assms by blast
  then have "\<not> list_all (\<lambda>(n, v). n \<in> fst ` set (properties t)) params"
    by (fastforce simp: list_all_iff)
  then show ?thesis using True by (auto simp: invoke_def)
qed

text \<open>
  C4. An invocation request that names a tool not in the active catalog returns a
  NotFoundError and sends no request to the backend.
\<close>

theorem run_tool_unknown:
  assumes "tool_name' \<notin> name ` set catalog"
  shows "(\<exists>message. fst (run_tool catalog token backend tool_name' params)
            = Failure NotFoundError message)
         \<and> snd (run_tool catalog token backend tool_name' params) = []"
proof -
  have "find (\<lambda>t. name t = tool_name') catalog = None"
    using assms by (auto simp: find_None_iff)
  then show ?thesis by (auto simp: run_tool_def)
qed

theorem invoke_validation_witness:
  "invoke None (\<lambda>r. Inr \<lparr>response_status = 200, response_body = JNull, response_headers = []\<rparr>)
     (make_tool ''getPet'' ''/pets/{id}'' ''get''
        \<lparr>operation_id = Some ''getPet'', op_description = ''Get a pet'',
         op_parameters =
           [\<lparr>param_name = ''id'', param_in = InPath, param_required = True,
             param_schema = \<lparr>schema_type = Some ''integer'', schema_enum = None,
                              schema_format = None\<rparr>\<rparr>],
         body_properties = [], body_required = []\<rparr>)
     []
   = (failed ValidationError ''missing required parameter'', [])
   \<and> invoke None (\<lambda>r. Inr \<lparr>response_status = 200, response_body = JNull, response_headers = []\<rparr>)
     (make_tool ''getPet'' ''/pets/{id}'' ''get''
        \<lparr>operation_id = Some ''getPet'', op_description = ''Get a pet'',
         op_parameters =
           [\<lparr>param_name = ''id'', param_in = InPath, param_required = True,
             param_schema = \<lparr>schema_type = Some ''integer'', schema_enum = None,
                              schema_format = None\<rparr>\<rparr>],
         body_properties = [], body_required = []\<rparr>)
     [(''id'', JInt 7), (''colour'', JStr ''red'')]
   = (failed ValidationError ''unknown parameter'', [])
   \<and> length (snd (invoke None
       (\<lambda>r. Inr \<lparr>response_status = 200, response_body = JNull, response_headers = []\<rparr>)
       (make_tool ''getPet'' ''/pets/{id}'' ''get''
        \<lparr>operation_id = Some ''getPet'', op_description = ''Get a pet'',
         op_parameters =
           [\<lparr>param_name = ''id'', param_in = InPath, param_required = True,
             param_schema = \<lparr>schema_type = Some ''integer'', schema_enum = None,
                              schema_format = None\<rparr>\<rparr>],
         body_properties = [], body_required = []\<rparr>)
       [(''id'', JInt 7)])) = 1"
proof -
  let ?backend = "\<lambda>r :: http_request.
      (Inr \<lparr>response_status = 200, response_body = JNull, response_headers = []\<rparr>
        :: string + http_response)"
  let ?tool = "make_tool ''getPet'' ''/pets/{id}'' ''get''
        \<lparr>operation_id = Some ''getPet'', op_description = ''Get a pet'',
         op_parameters =
           [\<lparr>param_name = ''id'', param_in = InPath, param_required = True,
             param_schema = \<lparr>schema_type = Some ''integer'', schema_enum = None,
                              schema_format = None\<rparr>\<rparr>],
         body_properties = [], body_required = []\<rparr>"
  have shape: "required ?tool = [''id'']" "map fst (properties ?tool) = [''id'']"
    by (simp_all add: make_tool_def tool_required_names_def tool_props_def
          declared_entries_def)
  have keys: "fst ` set (properties ?tool) = {''id''}"
    using shape(2) by (metis list.set_map list.simps(15) empty_set)
  have missing: "(\<exists>r \<in> set (required ?tool). r \<notin> fst ` set ([] :: (string \<times> json) list))
           \<or> (\<exists>n \<in> fst ` set ([] :: (string \<times> json) list). n \<notin> fst ` set (properties ?tool))"
    using shape(1) by simp
  have unknown: "(\<exists>r \<in> set (required ?tool).
              r \<notin> fst ` set [(''id'', JInt 7), (''colour'', JStr ''red'')])
           \<or> (\<exists>n \<in> fst ` set [(''id'', JInt 7), (''colour'', JStr ''red'')].
              n \<notin> fst ` set (properties ?tool))"
    unfolding keys by simp
  have a: "snd (invoke None ?backend ?tool []) = []"
    using invoke_validation [OF missing] by blast
  have b: "snd (invoke None ?backend ?tool [(''id'', JInt 7), (''colour'', JStr ''red'')]) = []"
    using invoke_validation [OF unknown] by blast
  have a': "fst (invoke None ?backend ?tool []) = failed ValidationError ''missing required parameter''"
    using shape(1) by (simp add: invoke_def)
  have b': "fst (invoke None ?backend ?tool [(''id'', JInt 7), (''colour'', JStr ''red'')])
      = failed ValidationError ''unknown parameter''"
    using shape(1) keys by (simp add: invoke_def)
  have c: "length (snd (invoke None ?backend ?tool [(''id'', JInt 7)])) = 1"
    using shape(1) keys by (simp add: invoke_def Let_def)
  show ?thesis using a a' b b' c by (simp add: prod_eq_iff)
qed

theorem run_tool_unknown_witness:
  "run_tool (fst (extract_tools example_document)) None
     (\<lambda>r. Inr \<lparr>response_status = 200, response_body = JNull, response_headers = []\<rparr>)
     ''doesNotExist'' [(''limit'', JInt 5)]
   = (Failure NotFoundError ''unknown tool'', [])
   \<and> length (snd (run_tool (fst (extract_tools example_document)) None
       (\<lambda>r. Inr \<lparr>response_status = 200, response_body = JNull, response_headers = []\<rparr>)
       ''getUsers'' [(''limit'', JInt 5)])) = 1"
proof -
  let ?backend = "\<lambda>r :: http_request.
      (Inr \<lparr>response_status = 200, response_body = JNull, response_headers = []\<rparr>
        :: string + http_response)"
  have names: "map name (fst (extract_tools example_document))
      = [''getpets{id}'', ''getUsers'', ''getUsers2'']"
    unfolding example_document_def by code_simp
  have "name ` set (fst (extract_tools example_document))
      = set [''getpets{id}'', ''getUsers'', ''getUsers2'']"
    unfolding names [symmetric] by simp
  then have "''doesNotExist'' \<notin> name ` set (fst (extract_tools example_document))"
    by simp
  from run_tool_unknown [OF this, of None ?backend "[(''limit'', JInt 5)]"]
  have u: "snd (run_tool (fst (extract_tools example_document)) None ?backend
      ''doesNotExist'' [(''limit'', JInt 5)]) = []"
    and k: "\<exists>message. fst (run_tool (fst (extract_tools example_document)) None ?backend
      ''doesNotExist'' [(''limit'', JInt 5)]) = Failure NotFoundError message"
    by blast+
  have f: "fst (run_tool (fst (extract_tools example_document)) None ?backend
      ''doesNotExist'' [(''limit'', JInt 5)]) = Failure NotFoundError ''unknown tool''"
    unfolding example_document_def by code_simp
  have g: "length (snd (run_tool (fst (extract_tools example_document)) None ?backend
       ''getUsers'' [(''limit'', JInt 5)])) = 1"
    unfolding example_document_def by code_simp
  show ?thesis using u f g by (simp add: prod_eq_iff)
qed

end
